theory Spec2Isabelle
  imports Complex_Main
begin

section \<open>TikTok Clipper: the web worker of \<open>src/app.py\<close>\<close>

text \<open>
  The theory embeds the class \<open>TikTokClipper\<close> of \<open>src/app.py\<close> and the function
  \<open>process_video_task\<close> that runs it in a background thread. The collaborators the
  class calls (yt\_dlp, moviepy, the file system) are a record of outcomes, \<open>world\<close>:
  whether a call raises and what it returns otherwise. Python's floats are read as real
  numbers and the arithmetic on them as exact, with one exception that is modelled: an
  \<open>int\<close> too large for a float cannot be divided into a float (\<open>OverflowError\<close>).
\<close>

subsection \<open>Data\<close>

text \<open>The six string literals that \<open>update_status\<close> is called with, and \<open>'starting'\<close>.\<close>

datatype status = Starting | Downloading | Downloaded | Processing | Completed | Error

text \<open>The exceptions that the modelled calls raise.\<close>

datatype exn =
  DownloadError | DecodeError | OverflowError | ZeroDivisionError | EncodeError | OSError

text \<open>
  The message strings, one constructor per (f-)string of the source with the values it
  interpolates:
  \<^item> \<open>Initialisation\<close>: \<^verbatim>\<open>"Initialisation..."\<close>
  \<^item> \<open>Telechargement\<close>: \<^verbatim>\<open>"Telechargement de la video..."\<close>
  \<^item> \<open>Telecharge t\<close>: \<^verbatim>\<open>f"Telecharge: {video_title}"\<close>
  \<^item> \<open>ErreurTelechargement e\<close>: \<^verbatim>\<open>f"Erreur telechargement: {str(e)}"\<close>
  \<^item> \<open>Analyse\<close>: \<^verbatim>\<open>"Analyse de la video..."\<close>
  \<^item> \<open>CreationDe n\<close>: \<^verbatim>\<open>f"Creation de {num_clips} clips (format 9:16)..."\<close>
  \<^item> \<open>CreationClip k n\<close>: \<^verbatim>\<open>f"Creation clip {i+1}/{num_clips} (format TikTok)..."\<close>
  \<^item> \<open>ErreurDecoupage e\<close>: \<^verbatim>\<open>f"Erreur decoupage: {str(e)}"\<close>
  \<^item> \<open>ClipsCrees k\<close>: \<^verbatim>\<open>f"{len(clips)} clips crees!"\<close>
  \<^item> \<open>Erreur e\<close>: \<^verbatim>\<open>f"Erreur: {str(e)}"\<close>
\<close>

datatype message =
    Initialisation
  | Telechargement
  | Telecharge string
  | ErreurTelechargement exn
  | Analyse
  | CreationDe int
  | CreationClip nat int
  | ErreurDecoupage exn
  | ClipsCrees nat
  | Erreur exn

text \<open>One value of the dictionary \<open>tasks\<close>: what \<open>/api/status\<close> returns.\<close>

record snapshot =
  s_status :: status
  s_progress :: int
  s_message :: message
  s_clips :: "string list"

text \<open>
  The collaborators. \<open>fetch url\<close> is \<open>ydl.extract_info\<close> followed by
  \<open>ydl.prepare_filename\<close>: \<open>None\<close> when either raises, otherwise the extension that
  fills \<^verbatim>\<open>%(ext)s\<close> and the title. \<open>decode\<close> is \<open>VideoFileClip(video_path)\<close>:
  \<open>None\<close> when it raises, otherwise \<open>video.duration\<close> and \<open>video.size\<close>.
  \<open>encode_ok i\<close> tells whether \<open>write_videofile\<close> returns for the loop index \<open>i\<close>,
  \<open>remove_ok\<close> whether \<open>os.remove\<close> does.
\<close>

record world =
  fetch :: "string \<Rightarrow> (string \<times> string) option"
  decode :: "(real \<times> int \<times> int) option"
  encode_ok :: "nat \<Rightarrow> bool"
  remove_ok :: bool

text \<open>
  The state a run reads and writes: the attributes of the \<open>TikTokClipper\<close> object, the
  global dictionary \<open>tasks\<close>, and the files on disk. Two fields are a log and are never
  read by the program: \<open>writes\<close> has every value assigned to \<open>tasks[task_id]\<close>, oldest
  first, and \<open>encode_calls\<close> has every call of \<open>write_videofile\<close> (start, end and
  output name), oldest first, whether it returned or raised.
\<close>

record state =
  task_id :: string
  status :: status
  progress :: int
  message :: message
  clips :: "string list"
  tasks :: "string \<rightharpoonup> snapshot"
  files :: "string set"
  writes :: "snapshot list"
  encode_calls :: "(real \<times> real \<times> string) list"

text \<open>A call either returns with the state it leaves, or raises with the state it leaves.\<close>

type_synonym 'a outcome = "(exn \<times> state) + ('a \<times> state)"

subsection \<open>Python's \<open>int()\<close> and number formatting\<close>

text \<open>\<open>int(x)\<close> of a float truncates toward zero.\<close>

definition py_int :: "real \<Rightarrow> int" where
  "py_int x = (if 0 \<le> x then \<lfloor>x\<rfloor> else \<lceil>x\<rceil>)"

text \<open>
  \<open>x / k\<close> for a float \<open>x\<close> and an \<open>int\<close> \<open>k\<close> first converts \<open>k\<close> to a float, which
  raises \<open>OverflowError\<close> when \<open>k\<close> rounds to a value beyond the largest double: from
  \<open>2 ^ 1024 - 2 ^ 970\<close> on, in absolute value.
\<close>

definition float_overflows :: "int \<Rightarrow> bool" where
  "float_overflows k = (2 ^ 1024 - 2 ^ 970 \<le> \<bar>k\<bar>)"

definition digit_char :: "nat \<Rightarrow> char" where
  "digit_char d = ''0123456789'' ! d"

fun dec :: "nat \<Rightarrow> string" where
  "dec n = (if n < 10 then [digit_char n] else dec (n div 10) @ [digit_char (n mod 10)])"

declare dec.simps [simp del]

text \<open>The format \<^verbatim>\<open>{k:03d}\<close> for a non-negative \<open>k\<close>.\<close>

definition pad3 :: "nat \<Rightarrow> string" where
  "pad3 k = replicate (3 - length (dec k)) (CHR ''0'') @ dec k"

subsection \<open>\<open>update_status\<close>\<close>

definition update_status :: "status \<Rightarrow> int \<Rightarrow> message \<Rightarrow> state \<Rightarrow> state" where
  "update_status st p m s =
     (let snap = \<lparr>s_status = st, s_progress = p, s_message = m, s_clips = clips s\<rparr>
      in s\<lparr>status := st, progress := p, message := m,
            tasks := (tasks s)(task_id s \<mapsto> snap),
            writes := writes s @ [snap]\<rparr>)"

subsection \<open>\<open>download_video\<close>\<close>

text \<open>\<open>self.output_dir\<close> is \<^verbatim>\<open>Path("clips_output") / task_id\<close>.\<close>

definition output_dir :: "state \<Rightarrow> string" where
  "output_dir s = ''clips_output/'' @ task_id s"

text \<open>The \<open>outtmpl\<close> of the download, with its extension filled in.\<close>

definition temp_video :: "state \<Rightarrow> string \<Rightarrow> string" where
  "temp_video s ext = output_dir s @ ''/temp_video.'' @ ext"

text \<open>
  Returns \<open>(filename, video_title)\<close> or \<open>(None, None)\<close>; the pair of the source is one
  option here, since both components are \<open>None\<close> together.
\<close>

definition download_video :: "world \<Rightarrow> string \<Rightarrow> state \<Rightarrow> (string \<times> string) option \<times> state" where
  "download_video w youtube_url s =
     (let s1 = update_status Downloading 10 Telechargement s
      in case fetch w youtube_url of
           Some (ext, video_title) \<Rightarrow>
             (let filename = temp_video s1 ext;
                  s2 = s1\<lparr>files := insert filename (files s1)\<rparr>
              in (Some (filename, video_title),
                  update_status Downloaded 30 (Telecharge video_title) s2))
         | None \<Rightarrow>
             (None, update_status Error 0 (ErreurTelechargement DownloadError) s1))"

subsection \<open>\<open>resize_to_tiktok_format\<close>\<close>

text \<open>
  What the two moviepy calls of \<open>resize_to_tiktok_format\<close> do to the picture: the
  rectangle of the source frame that \<open>clip.crop\<close> keeps, and the size \<open>clip.resize\<close>
  scales it to.
\<close>

record transform =
  crop_x :: int
  crop_y :: int
  crop_width :: int
  crop_height :: int
  target_width :: int
  target_height :: int

text \<open>
  moviepy's \<open>crop\<close>: with \<open>x1\<close> and \<open>width\<close> given the rectangle is \<open>x1 .. x1 + width\<close>
  over the whole height; with \<open>y1\<close> and \<open>height\<close> given it is \<open>y1 .. y1 + height\<close> over
  the whole width.
\<close>

definition crop_x1_width :: "int \<times> int \<Rightarrow> int \<Rightarrow> int \<Rightarrow> int \<times> int \<times> int \<times> int" where
  "crop_x1_width sz x1 width = (x1, 0, width, snd sz)"

definition crop_y1_height :: "int \<times> int \<Rightarrow> int \<Rightarrow> int \<Rightarrow> int \<times> int \<times> int \<times> int" where
  "crop_y1_height sz y1 height = (0, y1, fst sz, height)"

definition resize_to_tiktok_format :: "int \<times> int \<Rightarrow> exn + transform" where
  "resize_to_tiktok_format sz =
     (let target_width = 1080;
          target_height = 1920;
          w = fst sz;
          h = snd sz
      in if h = 0 then Inl ZeroDivisionError
         else
           let current_ratio = real_of_int w / real_of_int h;
               target_ratio = real_of_int target_width / real_of_int target_height;
               rect =
                 (if current_ratio > target_ratio then
                    let new_width = py_int (real_of_int h * target_ratio);
                        x_center = real_of_int w / 2;
                        x1 = py_int (x_center - real_of_int new_width / 2)
                    in crop_x1_width sz x1 new_width
                  else
                    let new_height = py_int (real_of_int w / target_ratio);
                        y_center = real_of_int h / 2;
                        y1 = py_int (y_center - real_of_int new_height / 2)
                    in crop_y1_height sz y1 new_height)
           in case rect of (x, y, cw, ch) \<Rightarrow>
                Inr \<lparr>crop_x = x, crop_y = y, crop_width = cw, crop_height = ch,
                     target_width = target_width, target_height = target_height\<rparr>)"

subsection \<open>\<open>cut_video_into_clips\<close>\<close>

definition num_clips :: "real \<Rightarrow> int \<Rightarrow> int" where
  "num_clips total_duration clip_duration = \<lceil>total_duration / real_of_int clip_duration\<rceil>"

definition start_time :: "int \<Rightarrow> nat \<Rightarrow> real" where
  "start_time clip_duration i = real_of_int (int i * clip_duration)"

definition end_time :: "real \<Rightarrow> int \<Rightarrow> nat \<Rightarrow> real" where
  "end_time total_duration clip_duration i =
     min (real_of_int ((int i + 1) * clip_duration)) total_duration"

text \<open>The name of \<open>output_path\<close>, \<^verbatim>\<open>f"clip_{i+1:03d}.mp4"\<close>.\<close>

definition clip_name :: "nat \<Rightarrow> string" where
  "clip_name i = ''clip_'' @ pad3 (i + 1) @ ''.mp4''"

text \<open>
  \<open>clip.write_videofile(str(output_path), ...)\<close> for the loop index \<open>i\<close>: the call is
  logged; it writes the file and returns, or raises.
\<close>

definition write_videofile :: "world \<Rightarrow> nat \<Rightarrow> real \<Rightarrow> real \<Rightarrow> state \<Rightarrow> unit outcome" where
  "write_videofile w i t0 t1 s =
     (let s1 = s\<lparr>encode_calls := encode_calls s @ [(t0, t1, clip_name i)]\<rparr>
      in if encode_ok w i
         then Inr ((), s1\<lparr>files := insert (output_dir s1 @ ''/'' @ clip_name i) (files s1)\<rparr>)
         else Inl (EncodeError, s1))"

text \<open>
  The body of \<open>for i in range(num_clips)\<close>, over the indices still to come. \<open>self.clips\<close>
  holds the paths \<open>output_dir / name\<close>; the model keeps the name, which is all that
  \<open>update_status\<close> takes of a path (\<open>c.name\<close>).
\<close>

fun cut_loop :: "world \<Rightarrow> real \<Rightarrow> int \<times> int \<Rightarrow> int \<Rightarrow> int \<Rightarrow> nat list \<Rightarrow> state \<Rightarrow> unit outcome" where
  "cut_loop w total_duration sz clip_duration n [] s = Inr ((), s)"
| "cut_loop w total_duration sz clip_duration n (i # rest) s =
     (let t0 = start_time clip_duration i;
          t1 = end_time total_duration clip_duration i
      in if t1 - t0 < 30 then cut_loop w total_duration sz clip_duration n rest s
         else
           let p = 50 + py_int ((real i / real_of_int n) * 45);
               s1 = update_status Processing p (CreationClip (i + 1) n) s
           in case resize_to_tiktok_format sz of
                Inl e \<Rightarrow> Inl (e, s1)
              | Inr tr \<Rightarrow>
                  (case write_videofile w i t0 t1 s1 of
                     Inl r \<Rightarrow> Inl r
                   | Inr (u, s2) \<Rightarrow>
                       cut_loop w total_duration sz clip_duration n rest
                         (s2\<lparr>clips := clips s2 @ [clip_name i]\<rparr>)))"

text \<open>The statements inside \<open>try:\<close>, up to \<open>return self.clips\<close>.\<close>

definition cut_body :: "world \<Rightarrow> int \<Rightarrow> state \<Rightarrow> (string list) outcome" where
  "cut_body w clip_duration s =
     (case decode w of
        None \<Rightarrow> Inl (DecodeError, s)
      | Some (total_duration, sz) \<Rightarrow>
          (if float_overflows clip_duration then Inl (OverflowError, s)
           else if clip_duration = 0 then Inl (ZeroDivisionError, s)
           else
             let n = num_clips total_duration clip_duration;
                 s1 = update_status Processing 50 (CreationDe n) s
             in (case cut_loop w total_duration sz clip_duration n [0..<nat n] s1 of
                   Inl r \<Rightarrow> Inl r
                 | Inr (u, s2) \<Rightarrow> Inr (clips s2, s2))))"

definition cut_video_into_clips :: "world \<Rightarrow> int \<Rightarrow> state \<Rightarrow> string list \<times> state" where
  "cut_video_into_clips w clip_duration s =
     (let s0 = update_status Processing 40 Analyse s
      in case cut_body w clip_duration s0 of
           Inr r \<Rightarrow> r
         | Inl (e, s1) \<Rightarrow> ([], update_status Error 0 (ErreurDecoupage e) s1))"

text \<open>
  The value of \<open>progress\<close> that the loop computes for the index \<open>i\<close> (line 127 of
  \<open>app.py\<close>), as a function of its own, over the reals. In doubles the product can fall
  just below a whole number that the reals reach, and the value written is then one
  less: \<open>(13 / 45) * 45\<close> is 12.999999999999998 and gives 62 where this function
  gives 63.
\<close>

definition segment_progress :: "int \<Rightarrow> nat \<Rightarrow> int" where
  "segment_progress n i = 50 + py_int ((real i / real_of_int n) * 45)"

subsection \<open>\<open>process_video\<close> and \<open>process_video_task\<close>\<close>

text \<open>\<open>os.remove(video_path)\<close>.\<close>

definition os_remove :: "world \<Rightarrow> string \<Rightarrow> state \<Rightarrow> unit outcome" where
  "os_remove w path s =
     (if remove_ok w then Inr ((), s\<lparr>files := files s - {path}\<rparr>) else Inl (OSError, s))"

text \<open>The statements inside \<open>try:\<close>. \<open>not video_path\<close> holds of \<open>None\<close> and of \<open>""\<close>.\<close>

definition process_body :: "world \<Rightarrow> string \<Rightarrow> int \<Rightarrow> state \<Rightarrow> unit outcome" where
  "process_body w youtube_url clip_duration s =
     (case download_video w youtube_url s of
        (None, s1) \<Rightarrow> Inr ((), s1)
      | (Some (video_path, title), s1) \<Rightarrow>
          (if video_path = [] then Inr ((), s1)
           else
             (case cut_video_into_clips w clip_duration s1 of
                (cs, s2) \<Rightarrow>
                  (case (if video_path \<in> files s2 then os_remove w video_path s2
                         else Inr ((), s2)) of
                     Inl r \<Rightarrow> Inl r
                   | Inr (u, s3) \<Rightarrow>
                       Inr ((), update_status Completed 100 (ClipsCrees (length cs)) s3)))))"

text \<open>
  \<open>except Exception\<close> takes every exception of the body, so \<open>Inl\<close> would be an
  exception that leaves \<open>process_video\<close>.
\<close>

definition process_video :: "world \<Rightarrow> string \<Rightarrow> int \<Rightarrow> state \<Rightarrow> unit outcome" where
  "process_video w youtube_url clip_duration s =
     (case process_body w youtube_url clip_duration s of
        Inr r \<Rightarrow> Inr r
      | Inl (e, s1) \<Rightarrow> Inr ((), update_status Error 0 (Erreur e) s1))"

text \<open>
  The entry that the route \<open>/api/process\<close> stores before it starts the thread, and the
  object that \<open>TikTokClipper(task_id)\<close> builds.
\<close>

definition starting_snapshot :: snapshot where
  "starting_snapshot =
     \<lparr>s_status = Starting, s_progress = 0, s_message = Initialisation, s_clips = []\<rparr>"

definition new_task :: "string \<Rightarrow> state" where
  "new_task tid =
     \<lparr>task_id = tid, status = Starting, progress = 0, message = Initialisation, clips = [],
      tasks = [tid \<mapsto> starting_snapshot], files = {}, writes = [starting_snapshot],
      encode_calls = []\<rparr>"

definition process_video_task :: "world \<Rightarrow> string \<Rightarrow> string \<Rightarrow> int \<Rightarrow> unit outcome" where
  "process_video_task w tid youtube_url clip_duration =
     process_video w youtube_url clip_duration (new_task tid)"

text \<open>The state a call leaves, returned or raised.\<close>

definition final :: "'a outcome \<Rightarrow> state" where
  "final r = (case r of Inl (e, s) \<Rightarrow> s | Inr (x, s) \<Rightarrow> s)"

subsection \<open>The segment plan\<close>

text \<open>
  The source has no planner of its own: the plan is what \<open>cut_video_into_clips\<close>
  computes on its way (lines 116 to 125 of \<open>app.py\<close>, 47 to 61 of \<open>clipper.py\<close>) and
  hands to the encoder, one range per call of \<open>write_videofile\<close>.
\<close>

definition encoded_ranges :: "state \<Rightarrow> (real \<times> real) list" where
  "encoded_ranges s = map (\<lambda>c. (fst c, fst (snd c))) (encode_calls s)"

text \<open>
  A world in which no call raises, for a video of the given duration, 1920 by 1080.
\<close>

definition plays :: "real \<Rightarrow> world" where
  "plays total_duration =
     \<lparr>fetch = (\<lambda>u. Some (''mp4'', ''title'')), decode = Some (total_duration, 1920, 1080),
      encode_ok = (\<lambda>i. True), remove_ok = True\<rparr>"

text \<open>
  The plan of a video: the ranges that \<open>cut_video_into_clips\<close> encodes in such a
  world.
\<close>

definition segment_plan :: "real \<Rightarrow> int \<Rightarrow> (real \<times> real) list" where
  "segment_plan total_duration clip_duration =
     encoded_ranges (snd (cut_video_into_clips (plays total_duration) clip_duration (new_task [])))"

text \<open>
  For the proofs: the indices among \<open>xs\<close> at which the loop does not \<open>continue\<close>
  (line 124).
\<close>

definition kept :: "real \<Rightarrow> int \<Rightarrow> nat list \<Rightarrow> nat list" where
  "kept total_duration clip_duration xs =
     filter (\<lambda>i. \<not> end_time total_duration clip_duration i - start_time clip_duration i < 30) xs"


text \<open>
  Ranges that follow one another from the time \<open>t\<close> on: each is non-empty and starts
  where the one before it ends. \<open>end_from t xs\<close> is where the last of them ends.
\<close>

fun contiguous_from :: "real \<Rightarrow> (real \<times> real) list \<Rightarrow> bool" where
  "contiguous_from t [] = True"
| "contiguous_from t ((a, b) # xs) = (a = t \<and> a < b \<and> contiguous_from b xs)"

fun end_from :: "real \<Rightarrow> (real \<times> real) list \<Rightarrow> real" where
  "end_from t [] = t"
| "end_from t ((a, b) # xs) = end_from b xs"

text \<open>For the proofs: the first \<open>k\<close> ranges of full length.\<close>

definition full_ranges :: "int \<Rightarrow> nat \<Rightarrow> (real \<times> real) list" where
  "full_ranges cd k = map (\<lambda>i. (real i * real_of_int cd, real (Suc i) * real_of_int cd)) [0..<k]"

subsection \<open>Shapes of a crop\<close>

text \<open>A crop of a frame of size \<open>(w, h)\<close> that keeps every row, or every column.\<close>

definition full_height :: "int \<times> int \<Rightarrow> transform \<Rightarrow> bool" where
  "full_height sz tr = (crop_y tr = 0 \<and> crop_height tr = snd sz)"

definition full_width :: "int \<times> int \<Rightarrow> transform \<Rightarrow> bool" where
  "full_width sz tr = (crop_x tr = 0 \<and> crop_width tr = fst sz)"

subsection \<open>Runs used as examples\<close>

text \<open>
  A video of 195 seconds and of 65 seconds, 1920 by 1080; the download succeeds and
  \<open>os.remove\<close> succeeds. In \<open>fails_on_second\<close> the encoder raises on the second
  segment (loop index 1), in \<open>fails_on_first\<close> on the first, in \<open>all_succeed\<close> never.
  In \<open>download_fails\<close> the download raises.
\<close>

definition fails_on_second :: world where
  "fails_on_second =
     \<lparr>fetch = (\<lambda>u. Some (''mp4'', ''title'')), decode = Some (195, 1920, 1080),
      encode_ok = (\<lambda>i. i \<noteq> 1), remove_ok = True\<rparr>"

definition fails_on_first :: world where
  "fails_on_first =
     \<lparr>fetch = (\<lambda>u. Some (''mp4'', ''title'')), decode = Some (65, 1920, 1080),
      encode_ok = (\<lambda>i. i \<noteq> 0), remove_ok = True\<rparr>"

definition download_fails :: world where
  "download_fails =
     \<lparr>fetch = (\<lambda>u. None), decode = Some (195, 1920, 1080),
      encode_ok = (\<lambda>i. True), remove_ok = True\<rparr>"


section \<open>Basic facts\<close>

lemma update_status_fields [simp]:
  "status (update_status st p m s) = st"
  "progress (update_status st p m s) = p"
  "message (update_status st p m s) = m"
  "task_id (update_status st p m s) = task_id s"
  "clips (update_status st p m s) = clips s"
  "files (update_status st p m s) = files s"
  "encode_calls (update_status st p m s) = encode_calls s"
  "writes (update_status st p m s) =
     writes s @ [\<lparr>s_status = st, s_progress = p, s_message = m, s_clips = clips s\<rparr>]"
  by (simp_all add: update_status_def Let_def)

lemma update_status_tasks [simp]:
  "tid = task_id s \<Longrightarrow>
   tasks (update_status st p m s) tid =
     Some \<lparr>s_status = st, s_progress = p, s_message = m, s_clips = clips s\<rparr>"
  by (simp add: update_status_def Let_def)

lemma temp_video_nonempty: "temp_video s ext \<noteq> []"
  by (simp add: temp_video_def output_dir_def)

lemma temp_video_update_status [simp]:
  "temp_video (update_status st p m s) ext = temp_video s ext"
  by (simp add: temp_video_def output_dir_def)

lemma py_int_nonneg: "0 \<le> x \<Longrightarrow> py_int x = \<lfloor>x\<rfloor>"
  by (simp add: py_int_def)

lemma resize_defined:
  assumes "snd sz \<noteq> 0"
  shows "\<exists>tr. resize_to_tiktok_format sz = Inr tr"
  using assms
  by (simp add: resize_to_tiktok_format_def Let_def split: prod.splits)

lemma small_fits_float: "\<bar>k\<bar> < 2 ^ 64 \<Longrightarrow> \<not> float_overflows k"
  by (simp add: float_overflows_def)

section \<open>The loop when no call raises\<close>

lemma cut_loop_calls:
  assumes rz: "resize_to_tiktok_format sz = Inr tr"
    and ok: "\<forall>i\<in>set xs. encode_ok w i"
  shows "\<exists>s'. cut_loop w tot sz cd n xs s = Inr ((), s') \<and>
           clips s' = clips s @ map clip_name (kept tot cd xs) \<and>
           encode_calls s' = encode_calls s @
             map (\<lambda>i. (start_time cd i, end_time tot cd i, clip_name i)) (kept tot cd xs)"
  using ok
proof (induction xs arbitrary: s)
  case Nil
  show ?case by (simp add: kept_def)
next
  case (Cons i xs)
  have ok': "\<forall>a\<in>set xs. encode_ok w a" using Cons.prems by simp
  show ?case
  proof (cases "end_time tot cd i - start_time cd i < 30")
    case True
    then show ?thesis using Cons.IH [OF ok', of s] by (simp add: kept_def)
  next
    case False
    define s3 where "s3 =
      (update_status Processing (50 + py_int ((real i / real_of_int n) * 45))
         (CreationClip (i + 1) n) s)
        \<lparr>encode_calls := encode_calls s @ [(start_time cd i, end_time tot cd i, clip_name i)],
         files := insert (output_dir s @ ''/'' @ clip_name i) (files s),
         clips := clips s @ [clip_name i]\<rparr>"
    have step: "cut_loop w tot sz cd n (i # xs) s = cut_loop w tot sz cd n xs s3"
      using False rz Cons.prems
      by (simp add: Let_def write_videofile_def s3_def output_dir_def)
    have kp: "kept tot cd (i # xs) = i # kept tot cd xs"
      using False by (simp add: kept_def)
    from Cons.IH [OF ok', of s3] obtain s' where
      r: "cut_loop w tot sz cd n xs s3 = Inr ((), s')"
      and c: "clips s' = clips s3 @ map clip_name (kept tot cd xs)"
      and e: "encode_calls s' = encode_calls s3 @
             map (\<lambda>i. (start_time cd i, end_time tot cd i, clip_name i)) (kept tot cd xs)"
      by blast
    have c': "clips s' = clips s @ map clip_name (i # kept tot cd xs)"
      using c by (simp add: s3_def)
    have e': "encode_calls s' = encode_calls s @
             map (\<lambda>i. (start_time cd i, end_time tot cd i, clip_name i)) (i # kept tot cd xs)"
      using e by (simp add: s3_def)
    show ?thesis
      unfolding step kp using r c' e' by blast
  qed
qed

lemma cut_video_into_clips_calls:
  assumes d: "decode w = Some (tot, sz)"
    and h: "snd sz \<noteq> 0"
    and e: "\<forall>i. encode_ok w i"
    and c: "cd \<noteq> 0"
    and f: "\<not> float_overflows cd"
  shows "fst (cut_video_into_clips w cd s) =
           clips s @ map clip_name (kept tot cd [0..<nat (num_clips tot cd)])"
    and "encode_calls (snd (cut_video_into_clips w cd s)) =
           encode_calls s @
           map (\<lambda>i. (start_time cd i, end_time tot cd i, clip_name i))
             (kept tot cd [0..<nat (num_clips tot cd)])"
proof -
  let ?n = "num_clips tot cd"
  let ?sA = "update_status Processing 50 (CreationDe ?n) (update_status Processing 40 Analyse s)"
  from resize_defined [OF h] obtain tr where rz: "resize_to_tiktok_format sz = Inr tr" ..
  have ok: "\<forall>i\<in>set [0..<nat ?n]. encode_ok w i" using e by simp
  from cut_loop_calls [OF rz ok, of tot cd ?n ?sA] obtain s2 where
    lp: "cut_loop w tot sz cd ?n [0..<nat ?n] ?sA = Inr ((), s2)"
    and c2: "clips s2 = clips ?sA @ map clip_name (kept tot cd [0..<nat ?n])"
    and e2: "encode_calls s2 = encode_calls ?sA @
             map (\<lambda>i. (start_time cd i, end_time tot cd i, clip_name i))
               (kept tot cd [0..<nat ?n])"
    by blast
  have cut: "cut_video_into_clips w cd s = (clips s2, s2)"
    using d c f lp by (simp add: cut_video_into_clips_def cut_body_def Let_def)
  show "fst (cut_video_into_clips w cd s) =
           clips s @ map clip_name (kept tot cd [0..<nat (num_clips tot cd)])"
    using c2 by (simp add: cut)
  show "encode_calls (snd (cut_video_into_clips w cd s)) =
           encode_calls s @
           map (\<lambda>i. (start_time cd i, end_time tot cd i, clip_name i))
             (kept tot cd [0..<nat (num_clips tot cd)])"
    using e2 by (simp add: cut)
qed

lemma cut_video_into_clips_ranges:
  assumes "decode w = Some (tot, sz)" "snd sz \<noteq> 0" "\<forall>i. encode_ok w i" "cd \<noteq> 0"
    "\<not> float_overflows cd" "encode_calls s = []"
  shows "encoded_ranges (snd (cut_video_into_clips w cd s)) =
           map (\<lambda>i. (start_time cd i, end_time tot cd i)) (kept tot cd [0..<nat (num_clips tot cd)])"
  using cut_video_into_clips_calls(2) [OF assms(1-5), of s] assms(6)
  by (simp add: encoded_ranges_def comp_def)

lemma segment_plan_kept:
  assumes "cd \<noteq> 0" "\<not> float_overflows cd"
  shows "segment_plan tot cd =
           map (\<lambda>i. (start_time cd i, end_time tot cd i)) (kept tot cd [0..<nat (num_clips tot cd)])"
  unfolding segment_plan_def
  by (rule cut_video_into_clips_ranges [where sz = "(1920, 1080)"])
     (simp_all add: plays_def new_task_def assms)

section \<open>The segment plan\<close>

lemma kept_append: "kept tot cd (xs @ ys) = kept tot cd xs @ kept tot cd ys"
  by (simp add: kept_def)


lemma below_num_clips:
  assumes "0 < cd" "i < nat (num_clips tot cd)"
  shows "real i * real_of_int cd < tot"
proof -
  from assms(2) have "int i < \<lceil>tot / real_of_int cd\<rceil>"
    by (simp add: num_clips_def)
  then have "real_of_int (int i) < tot / real_of_int cd"
    by (simp only: less_ceiling_iff)
  with assms(1) show ?thesis
    by (simp add: pos_less_divide_eq)
qed

lemma num_clips_covers:
  assumes "0 < cd"
  shows "tot \<le> real (nat (num_clips tot cd)) * real_of_int cd"
proof -
  have "tot / real_of_int cd \<le> real_of_int \<lceil>tot / real_of_int cd\<rceil>"
    by (rule le_of_int_ceiling)
  also have "\<dots> \<le> real (nat \<lceil>tot / real_of_int cd\<rceil>)"
    by simp
  finally show ?thesis
    using assms by (simp add: num_clips_def pos_divide_le_eq)
qed

lemma full_entry:
  assumes "0 < cd" "Suc i < nat (num_clips tot cd)"
  shows "end_time tot cd i = real (Suc i) * real_of_int cd"
    and "end_time tot cd i - start_time cd i = real_of_int cd"
proof -
  have "real (Suc i) * real_of_int cd < tot"
    using below_num_clips [OF assms] .
  then show "end_time tot cd i = real (Suc i) * real_of_int cd"
    by (simp add: end_time_def algebra_simps)
  then show "end_time tot cd i - start_time cd i = real_of_int cd"
    by (simp add: start_time_def algebra_simps)
qed

lemma last_entry:
  assumes "0 < cd" "Suc i = nat (num_clips tot cd)"
  shows "end_time tot cd i = tot"
proof -
  have "tot \<le> real (Suc i) * real_of_int cd"
    using num_clips_covers [OF assms(1), of tot] by (simp only: assms(2))
  then show ?thesis
    by (simp add: end_time_def algebra_simps)
qed

lemma ranges_full:
  assumes "30 \<le> cd" "k < nat (num_clips tot cd)"
  shows "map (\<lambda>i. (start_time cd i, end_time tot cd i)) (kept tot cd [0..<k]) = full_ranges cd k"
proof -
  from assms(1) have pos: "0 < cd" by simp
  have all: "\<And>i. i < k \<Longrightarrow> Suc i < nat (num_clips tot cd)" using assms(2) by simp
  have "kept tot cd [0..<k] = [0..<k]"
    unfolding kept_def using full_entry(2) [OF pos all] assms(1) by (intro filter_True) simp
  moreover have "map (\<lambda>i. (start_time cd i, end_time tot cd i)) [0..<k] = full_ranges cd k"
    unfolding full_ranges_def using full_entry(1) [OF pos all]
    by (intro map_cong) (simp_all add: start_time_def)
  ultimately show ?thesis by simp
qed

lemma ranges_all:
  assumes "30 \<le> cd" "nat (num_clips tot cd) = Suc k"
  shows "map (\<lambda>i. (start_time cd i, end_time tot cd i)) (kept tot cd [0..<nat (num_clips tot cd)]) =
           full_ranges cd k @
           (if tot - real k * real_of_int cd < 30 then [] else [(real k * real_of_int cd, tot)])"
proof -
  from assms(1) have pos: "0 < cd" by simp
  have k: "k < nat (num_clips tot cd)" using assms(2) by simp
  have e: "end_time tot cd k = tot"
    using last_entry [OF pos, of k tot] assms(2) by simp
  have "map (\<lambda>i. (start_time cd i, end_time tot cd i)) (kept tot cd [k]) =
          (if tot - real k * real_of_int cd < 30 then [] else [(real k * real_of_int cd, tot)])"
    by (simp add: kept_def e start_time_def)
  then show ?thesis
    using ranges_full [OF assms(1) k]
    by (simp only: assms(2) upt_Suc_append [OF le0] kept_append map_append)
qed

lemma num_clips_zero:
  assumes "0 < cd" "0 \<le> tot" "nat (num_clips tot cd) = 0"
  shows "tot = 0"
proof -
  have "tot \<le> real (nat (num_clips tot cd)) * real_of_int cd"
    by (rule num_clips_covers [OF assms(1)])
  with assms(2,3) show ?thesis by simp
qed

lemma contiguous_from_append:
  "contiguous_from t (xs @ ys) = (contiguous_from t xs \<and> contiguous_from (end_from t xs) ys)"
  by (induction t xs rule: contiguous_from.induct) auto

lemma end_from_append: "end_from t (xs @ ys) = end_from (end_from t xs) ys"
  by (induction t xs rule: end_from.induct) auto

lemma full_ranges_contiguous:
  assumes "0 < cd"
  shows "contiguous_from 0 (full_ranges cd k) \<and>
         end_from 0 (full_ranges cd k) = real k * real_of_int cd"
  using assms
  by (induction k) (simp_all add: full_ranges_def contiguous_from_append end_from_append algebra_simps)

lemma full_ranges_Nil: "(full_ranges cd k = []) = (k = 0)"
  by (simp add: full_ranges_def)

text \<open>
  Claim C5, as amended. Let \<open>cut_video_into_clips\<close> run on a video of \<open>tot \<ge> 0\<close> seconds
  with no call raising, for a clip duration \<open>cd \<ge> 30\<close> that fits a float, and let the
  log of encoder calls start empty. Then every entry but the last has exactly the length
  \<open>cd\<close> and is encoded, so only the last can be dropped; the encoded ranges follow one
  another from 0 without gap or overlap; what they leave uncovered at the end of
  \<open>[0, tot)\<close> is shorter than 30 seconds; no range is encoded exactly when \<open>tot < 30\<close>;
  and the list returned has one clip per encoded range.
\<close>

theorem cut_video_into_clips_cover:
  assumes "decode w = Some (tot, sz)" and "snd sz \<noteq> 0" and "\<forall>i. encode_ok w i"
    and "0 \<le> tot" and "30 \<le> cd" and "\<not> float_overflows cd"
    and "encode_calls s = []" and "clips s = []"
  shows "(\<forall>i. Suc i < nat (num_clips tot cd) \<longrightarrow>
            end_time tot cd i - start_time cd i = real_of_int cd \<and>
            (start_time cd i, end_time tot cd i)
              \<in> set (encoded_ranges (snd (cut_video_into_clips w cd s)))) \<and>
         contiguous_from 0 (encoded_ranges (snd (cut_video_into_clips w cd s))) \<and>
         0 \<le> tot - end_from 0 (encoded_ranges (snd (cut_video_into_clips w cd s))) \<and>
         tot - end_from 0 (encoded_ranges (snd (cut_video_into_clips w cd s))) < 30 \<and>
         (encoded_ranges (snd (cut_video_into_clips w cd s)) = [] \<longleftrightarrow> tot < 30) \<and>
         length (fst (cut_video_into_clips w cd s)) =
           length (encoded_ranges (snd (cut_video_into_clips w cd s)))"
proof -
  let ?R = "encoded_ranges (snd (cut_video_into_clips w cd s))"
  from assms(5) have pos: "0 < cd" and nz: "cd \<noteq> 0" by simp_all
  have c30: "30 \<le> real_of_int cd" using assms(5) by simp
  have R: "?R = map (\<lambda>i. (start_time cd i, end_time tot cd i))
                  (kept tot cd [0..<nat (num_clips tot cd)])"
    by (rule cut_video_into_clips_ranges [OF assms(1-3) nz assms(6,7)])
  have len: "length (fst (cut_video_into_clips w cd s)) = length ?R"
    using cut_video_into_clips_calls(1) [OF assms(1-3) nz assms(6), of s] assms(8)
    by (simp add: R)
  show ?thesis
  proof (cases "nat (num_clips tot cd)")
    case 0
    have "tot = 0" using num_clips_zero [OF pos assms(4) 0] .
    then show ?thesis using 0 len by (simp add: R kept_def)
  next
    case (Suc k)
    have k: "k < nat (num_clips tot cd)" using Suc by simp
    have lo: "real k * real_of_int cd < tot"
      using below_num_clips [OF pos k] .
    have plan: "?R = full_ranges cd k @
          (if tot - real k * real_of_int cd < 30 then [] else [(real k * real_of_int cd, tot)])"
      unfolding R by (rule ranges_all [OF assms(5) Suc])
    have fe: "contiguous_from 0 (full_ranges cd k)"
             "end_from 0 (full_ranges cd k) = real k * real_of_int cd"
      using full_ranges_contiguous [OF pos, of k] by simp_all
    have a: "\<forall>i. Suc i < nat (num_clips tot cd) \<longrightarrow>
              end_time tot cd i - start_time cd i = real_of_int cd \<and>
              (start_time cd i, end_time tot cd i) \<in> set ?R"
    proof (intro allI impI conjI)
      fix i assume i: "Suc i < nat (num_clips tot cd)"
      show "end_time tot cd i - start_time cd i = real_of_int cd"
        using full_entry(2) [OF pos i] .
      have "i < k" using i Suc by simp
      then have "(real i * real_of_int cd, real (Suc i) * real_of_int cd) \<in> set (full_ranges cd k)"
        by (force simp: full_ranges_def)
      moreover have "start_time cd i = real i * real_of_int cd"
        by (simp add: start_time_def)
      moreover note full_entry(1) [OF pos i]
      ultimately show "(start_time cd i, end_time tot cd i) \<in> set ?R"
        by (simp add: plan)
    qed
    have b: "contiguous_from 0 ?R"
      using fe lo by (simp add: plan contiguous_from_append)
    have c: "0 \<le> tot - end_from 0 ?R \<and> tot - end_from 0 ?R < 30"
      using fe lo by (simp add: plan end_from_append)
    have d: "?R = [] \<longleftrightarrow> tot < 30"
    proof
      assume "?R = []"
      then have "k = 0" and "tot - real k * real_of_int cd < 30"
        by (auto simp: plan full_ranges_Nil split: if_splits)
      then show "tot < 30" by simp
    next
      assume t: "tot < 30"
      have "k = 0"
      proof (rule ccontr)
        assume "k \<noteq> 0"
        then have "1 \<le> real k" by simp
        then have "1 * real_of_int cd \<le> real k * real_of_int cd"
          using pos by (intro mult_right_mono) simp_all
        with lo c30 t show False by simp
      qed
      with t show "?R = []"
        by (simp add: plan full_ranges_def)
    qed
    from a b c d len show ?thesis by blast
  qed
qed

lemma plays_ranges:
  assumes "cd \<noteq> 0" "\<not> float_overflows cd"
  shows "encoded_ranges (snd (cut_video_into_clips (plays tot) cd (new_task tid))) =
           map (\<lambda>i. (start_time cd i, end_time tot cd i)) (kept tot cd [0..<nat (num_clips tot cd)])"
  by (rule cut_video_into_clips_ranges [where sz = "(1920, 1080)"])
     (simp_all add: plays_def new_task_def assms)

lemma plays_premises:
  "decode (plays tot) = Some (tot, 1920, 1080)" "\<forall>i. encode_ok (plays tot) i"
  "encode_calls (new_task tid) = []" "clips (new_task tid) = []"
  by (simp_all add: plays_def new_task_def)


theorem cut_video_into_clips_cover_witness:
  "decode (plays 100) = Some (100, 1920, 1080) \<and> snd (1920 :: int, 1080 :: int) \<noteq> 0 \<and>
   (\<forall>i. encode_ok (plays 100) i) \<and> (0 :: real) \<le> 100 \<and> (30 :: int) \<le> 65 \<and>
   \<not> float_overflows 65 \<and> encode_calls (new_task ''t1'') = [] \<and>
   clips (new_task ''t1'') = [] \<and>
   Suc 0 < nat (num_clips 100 65) \<and>
   end_time 100 65 0 - start_time 65 0 = real_of_int 65 \<and>
   (start_time 65 0, end_time 100 65 0)
     \<in> set (encoded_ranges (snd (cut_video_into_clips (plays 100) 65 (new_task ''t1'')))) \<and>
   contiguous_from 0 (encoded_ranges (snd (cut_video_into_clips (plays 100) 65 (new_task ''t1'')))) \<and>
   100 - end_from 0 (encoded_ranges (snd (cut_video_into_clips (plays 100) 65 (new_task ''t1''))))
     < 30 \<and>
   (encoded_ranges (snd (cut_video_into_clips (plays 100) 65 (new_task ''t1''))) = []
      \<longleftrightarrow> (100 :: real) < 30) \<and>
   length (fst (cut_video_into_clips (plays 100) 65 (new_task ''t1''))) =
     length (encoded_ranges (snd (cut_video_into_clips (plays 100) 65 (new_task ''t1''))))"
proof -
  have a: "decode (plays 100) = Some (100, 1920, 1080)" by (rule plays_premises)
  have b: "snd (1920 :: int, 1080 :: int) \<noteq> 0" by simp
  have c: "\<forall>i. encode_ok (plays 100) i" by (rule plays_premises)
  have d: "(0 :: real) \<le> 100" by simp
  have e: "(30 :: int) \<le> 65" by simp
  have f: "\<not> float_overflows 65" by (simp add: small_fits_float)
  have g: "encode_calls (new_task ''t1'') = []" by (rule plays_premises)
  have h: "clips (new_task ''t1'') = []" by (rule plays_premises)
  have i: "Suc 0 < nat (num_clips 100 65)" by (simp add: num_clips_def)
  show ?thesis
    using a b c d e f g h i cut_video_into_clips_cover [OF a b c d e f g h] by blast
qed

text \<open>
  Claim C5 as stated, for every clip duration above 0, fails in two places. At a clip
  duration of 20 seconds and a video of 100 seconds the first entry is not the last,
  has a length below 30 and is dropped, and nothing is encoded or returned although the
  video has 100 seconds. At a clip duration of \<open>2 ^ 1024\<close> the division raises, and
  nothing is encoded either.
\<close>

theorem clip_duration_counterexample:
  "(0 :: real) \<le> 100 \<and> (0 :: int) < 20 \<and> \<not> (100 :: real) < 30 \<and>
   Suc 0 < nat (num_clips 100 20) \<and> end_time 100 20 0 - start_time 20 0 < 30 \<and>
   encoded_ranges (snd (cut_video_into_clips (plays 100) 20 (new_task ''t1''))) = [] \<and>
   fst (cut_video_into_clips (plays 100) 20 (new_task ''t1'')) = [] \<and>
   (0 :: int) < 2 ^ 1024 \<and>
   encoded_ranges (snd (cut_video_into_clips (plays 100) (2 ^ 1024) (new_task ''t1''))) = [] \<and>
   fst (cut_video_into_clips (plays 100) (2 ^ 1024) (new_task ''t1'')) = []"
proof -
  have k: "kept 100 20 [0..<nat (num_clips 100 20)] = []"
    by (simp add: kept_def num_clips_def start_time_def end_time_def upt_rec)
  have s: "\<not> float_overflows 20" by (simp add: small_fits_float)
  have a: "encoded_ranges (snd (cut_video_into_clips (plays 100) 20 (new_task ''t1''))) = []"
    by (simp add: plays_ranges s k)
  have b: "fst (cut_video_into_clips (plays 100) 20 (new_task ''t1'')) = []"
    using cut_video_into_clips_calls(1)
      [of "plays 100" 100 "(1920, 1080)" 20 "new_task ''t1''"] s
    by (simp add: plays_premises k)
  have o: "float_overflows (2 ^ 1024)" by (simp add: float_overflows_def)
  have c: "cut_video_into_clips (plays 100) (2 ^ 1024) (new_task ''t1'') =
             ([], update_status Error 0 (ErreurDecoupage OverflowError)
                    (update_status Processing 40 Analyse (new_task ''t1'')))"
    using o by (simp add: cut_video_into_clips_def cut_body_def plays_def Let_def)
  have d: "encoded_ranges (snd (cut_video_into_clips (plays 100) (2 ^ 1024) (new_task ''t1''))) = []"
    by (simp only: c snd_conv) (simp add: encoded_ranges_def new_task_def)
  have f: "fst (cut_video_into_clips (plays 100) (2 ^ 1024) (new_task ''t1'')) = []"
    by (simp only: c fst_conv)
  have t: "(0 :: real) \<le> 100 \<and> (0 :: int) < 20 \<and> \<not> (100 :: real) < 30 \<and> (0 :: int) < 2 ^ 1024"
    by simp
  have e: "Suc 0 < nat (num_clips 100 20) \<and> end_time 100 20 0 - start_time 20 0 < 30"
    by (simp add: num_clips_def start_time_def end_time_def)
  show ?thesis using a b d e f t by blast
qed



section \<open>The crop\<close>

lemma wide_offset_nonneg:
  assumes "0 < h" "real_of_int w / real_of_int h > 1080 / 1920"
  shows "0 \<le> real_of_int w / 2 - real_of_int \<lfloor>real_of_int h * (1080 / 1920)\<rfloor> / 2"
proof -
  have "real_of_int \<lfloor>real_of_int h * (1080 / 1920)\<rfloor> \<le> real_of_int h * (1080 / 1920)"
    by (rule of_int_floor_le)
  also have "\<dots> < real_of_int w"
    using assms by (simp add: pos_less_divide_eq algebra_simps)
  finally show ?thesis by simp
qed

lemma tall_offset_nonneg:
  assumes "0 < h" "\<not> real_of_int w / real_of_int h > 1080 / 1920"
  shows "0 \<le> real_of_int h / 2 - real_of_int \<lfloor>real_of_int w / (1080 / 1920)\<rfloor> / 2"
proof -
  have "real_of_int \<lfloor>real_of_int w / (1080 / 1920)\<rfloor> \<le> real_of_int w / (1080 / 1920)"
    by (rule of_int_floor_le)
  also have "\<dots> \<le> real_of_int h"
    using assms by (simp add: field_simps)
  finally show ?thesis by simp
qed

text \<open>
  Claim C7. For a frame of positive width \<open>w\<close> and height \<open>h\<close>: when
  \<open>w / h > 1080 / 1920\<close> the crop keeps the whole height and the columns from
  \<open>floor (w / 2 - new_width / 2)\<close> on, \<open>new_width = floor (h * (1080 / 1920))\<close> of them;
  otherwise it keeps the whole width and the rows from \<open>floor (h / 2 - new_height / 2)\<close>
  on, \<open>new_height = floor (w / (1080 / 1920))\<close> of them. The result is scaled to 1080 by
  1920. (\<open>int()\<close> truncates toward zero; it is the floor here since no argument is
  negative.)
\<close>

theorem resize_to_tiktok_format_crop:
  assumes "0 < w" and "0 < h"
  shows "resize_to_tiktok_format (w, h) =
           Inr (if real_of_int w / real_of_int h > 1080 / 1920
                then \<lparr>crop_x = \<lfloor>real_of_int w / 2 - real_of_int \<lfloor>real_of_int h * (1080 / 1920)\<rfloor> / 2\<rfloor>,
                      crop_y = 0,
                      crop_width = \<lfloor>real_of_int h * (1080 / 1920)\<rfloor>,
                      crop_height = h,
                      target_width = 1080, target_height = 1920\<rparr>
                else \<lparr>crop_x = 0,
                      crop_y = \<lfloor>real_of_int h / 2 - real_of_int \<lfloor>real_of_int w / (1080 / 1920)\<rfloor> / 2\<rfloor>,
                      crop_width = w,
                      crop_height = \<lfloor>real_of_int w / (1080 / 1920)\<rfloor>,
                      target_width = 1080, target_height = 1920\<rparr>)"
proof (cases "real_of_int w / real_of_int h > 1080 / 1920")
  case True
  have a: "py_int (real_of_int h * (1080 / 1920)) = \<lfloor>real_of_int h * (1080 / 1920)\<rfloor>"
    using assms(2) by (intro py_int_nonneg) simp
  have b: "py_int (real_of_int w / 2 - real_of_int \<lfloor>real_of_int h * (1080 / 1920)\<rfloor> / 2) =
           \<lfloor>real_of_int w / 2 - real_of_int \<lfloor>real_of_int h * (1080 / 1920)\<rfloor> / 2\<rfloor>"
    by (rule py_int_nonneg [OF wide_offset_nonneg [OF assms(2) True]])
  have h0: "(h = 0) = False" using assms(2) by simp
  show ?thesis
    unfolding resize_to_tiktok_format_def Let_def
    by (simp only: fst_conv snd_conv h0 if_False of_int_numeral True if_True a b
          crop_x1_width_def prod.case)
next
  case False
  have a: "py_int (real_of_int w / (1080 / 1920)) = \<lfloor>real_of_int w / (1080 / 1920)\<rfloor>"
    using assms(1) by (intro py_int_nonneg) simp
  have b: "py_int (real_of_int h / 2 - real_of_int \<lfloor>real_of_int w / (1080 / 1920)\<rfloor> / 2) =
           \<lfloor>real_of_int h / 2 - real_of_int \<lfloor>real_of_int w / (1080 / 1920)\<rfloor> / 2\<rfloor>"
    by (rule py_int_nonneg [OF tall_offset_nonneg [OF assms(2) False]])
  have h0: "(h = 0) = False" using assms(2) by simp
  show ?thesis
    unfolding resize_to_tiktok_format_def Let_def
    by (simp only: fst_conv snd_conv h0 if_False of_int_numeral False a b
          crop_y1_height_def prod.case)
qed

theorem resize_to_tiktok_format_crop_witness:
  "(0::int) < 1000 \<and> (0::int) < 1000 \<and>
   resize_to_tiktok_format (1000, 1000) =
     Inr \<lparr>crop_x = 219, crop_y = 0, crop_width = 562, crop_height = 1000,
          target_width = 1080, target_height = 1920\<rparr>"
proof -
  have a: "(0::int) < 1000" by simp
  show ?thesis
    using resize_to_tiktok_format_crop [OF a a] by simp
qed

text \<open>
  Claim C8 as stated fails: for the frame 1920 by 1080 the crop does not keep the whole
  width (it is not a vertical crop), and \<open>floor (1920 / (1080 / 1920))\<close> is 3413, not
  1080.
\<close>

theorem landscape_1920_1080_counterexample:
  "resize_to_tiktok_format (1920, 1080) =
     Inr \<lparr>crop_x = 656, crop_y = 0, crop_width = 607, crop_height = 1080,
          target_width = 1080, target_height = 1920\<rparr> \<and>
   \<not> full_width (1920, 1080)
       \<lparr>crop_x = 656, crop_y = 0, crop_width = 607, crop_height = 1080,
        target_width = 1080, target_height = 1920\<rparr> \<and>
   \<lfloor>1920 / (1080 / 1920 :: real)\<rfloor> \<noteq> (1080 :: int)"
  by (simp add: resize_to_tiktok_format_def py_int_def crop_x1_width_def Let_def full_width_def)

text \<open>
  Claim C8, as amended. For the frame 1920 by 1080 the crop is horizontal only: it keeps
  the whole height of 1080 and \<open>floor (1080 * (1080 / 1920)) = 607\<close> columns from
  \<open>floor (1920 / 2 - 607 / 2) = 656\<close> on, and the result is scaled to 1080 by 1920.
\<close>

theorem landscape_1920_1080_crop:
  "resize_to_tiktok_format (1920, 1080) =
     Inr \<lparr>crop_x = 656, crop_y = 0, crop_width = 607, crop_height = 1080,
          target_width = 1080, target_height = 1920\<rparr> \<and>
   full_height (1920, 1080)
     \<lparr>crop_x = 656, crop_y = 0, crop_width = 607, crop_height = 1080,
      target_width = 1080, target_height = 1920\<rparr> \<and>
   \<lfloor>real_of_int 1080 * (1080 / 1920)\<rfloor> = (607 :: int) \<and>
   \<lfloor>real_of_int 1920 / 2 - 607 / 2\<rfloor> = (656 :: int)"
  by (simp add: resize_to_tiktok_format_def py_int_def crop_x1_width_def Let_def full_height_def)

section \<open>Runs\<close>

lemma write_videofile_task_id:
  "task_id (final (write_videofile w i t0 t1 s)) = task_id s"
  by (simp add: write_videofile_def final_def Let_def)

lemma cut_loop_task_id:
  "task_id (final (cut_loop w tot sz cd n xs s)) = task_id s"
proof (induction xs arbitrary: s)
  case Nil
  show ?case by (simp add: final_def)
next
  case (Cons i xs)
  show ?case
  proof (cases "end_time tot cd i - start_time cd i < 30")
    case True
    then show ?thesis using Cons.IH by simp
  next
    case False
    show ?thesis
    proof (cases "resize_to_tiktok_format sz")
      case (Inl e)
      with False show ?thesis by (simp add: Let_def final_def)
    next
      case (Inr tr)
      show ?thesis
      proof (cases "encode_ok w i")
        case True
        with False Inr show ?thesis
          by (simp add: Let_def write_videofile_def Cons.IH)
      next
        case no: False
        with False Inr show ?thesis
          by (simp add: Let_def write_videofile_def final_def)
      qed
    qed
  qed
qed

lemma cut_body_task_id: "task_id (final (cut_body w cd s)) = task_id s"
proof (cases "decode w")
  case None
  then show ?thesis by (simp add: cut_body_def final_def)
next
  case (Some v)
  obtain tot sz where v: "v = (tot, sz)" by (cases v)
  show ?thesis
  proof (cases "float_overflows cd \<or> cd = 0")
    case True
    with Some v show ?thesis by (auto simp: cut_body_def final_def)
  next
    case False
    have "task_id (final (cut_loop w tot sz cd (num_clips tot cd) [0..<nat (num_clips tot cd)]
             (update_status Processing 50 (CreationDe (num_clips tot cd)) s))) = task_id s"
      by (simp add: cut_loop_task_id)
    with Some v False show ?thesis
      by (auto simp: cut_body_def Let_def final_def split: sum.splits)
  qed
qed

lemma cut_video_into_clips_task_id:
  "task_id (snd (cut_video_into_clips w cd s)) = task_id s"
  using cut_body_task_id [of w cd "update_status Processing 40 Analyse s"]
  by (auto simp: cut_video_into_clips_def Let_def final_def split: sum.splits)

text \<open>
  Claim C10. For every outcome of the collaborators and every clip duration, 0 and
  negative numbers included, \<open>process_video\<close> returns (no exception leaves it), and in
  the state it leaves the status is \<open>completed\<close> or \<open>error\<close> and \<open>tasks[task_id]\<close>
  exists with that status.
\<close>

theorem process_video_terminal:
  "\<exists>s'. process_video w youtube_url clip_duration s = Inr ((), s') \<and>
        task_id s' = task_id s \<and>
        (status s' = Completed \<or> status s' = Error) \<and>
        (\<exists>snap. tasks s' (task_id s) = Some snap \<and> s_status snap = status s')"
proof (cases "fetch w youtube_url")
  case None
  then show ?thesis
    by (simp add: process_video_def process_body_def download_video_def Let_def)
next
  case (Some r)
  obtain ext title where r: "r = (ext, title)" by (cases r)
  define s1 where "s1 = update_status Downloaded 30 (Telecharge title)
      ((update_status Downloading 10 Telechargement s)
         \<lparr>files := insert (temp_video s ext) (files (update_status Downloading 10 Telechargement s))\<rparr>)"
  have d: "download_video w youtube_url s = (Some (temp_video s ext, title), s1)"
    using Some r by (simp add: download_video_def Let_def s1_def)
  have t1: "task_id s1 = task_id s" by (simp add: s1_def)
  obtain cs s2 where c: "cut_video_into_clips w clip_duration s1 = (cs, s2)"
    by (cases "cut_video_into_clips w clip_duration s1")
  have t2: "task_id s2 = task_id s"
    using cut_video_into_clips_task_id [of w clip_duration s1] c t1 by simp
  show ?thesis
    using t2
    by (auto simp: process_video_def process_body_def d c temp_video_nonempty os_remove_def)
qed



subsection \<open>Runs in which an encoding fails\<close>

lemma clip_names:
  "clip_name 0 = ''clip_001.mp4''"
  "clip_name (Suc 0) = ''clip_002.mp4''"
  "clip_name (Suc (Suc 0)) = ''clip_003.mp4''"
  by (simp_all add: clip_name_def pad3_def dec.simps digit_char_def numeral_2_eq_2 numeral_3_eq_3)

lemma resize_1920_1080:
  "resize_to_tiktok_format (1920, 1080) =
     Inr \<lparr>crop_x = 656, crop_y = 0, crop_width = 607, crop_height = 1080,
          target_width = 1080, target_height = 1920\<rparr>"
  by (simp add: resize_to_tiktok_format_def py_int_def crop_x1_width_def Let_def)

lemma fails_on_second_run:
  "final (process_video_task fails_on_second ''t1'' ''url'' 65) =
     \<lparr>task_id = ''t1'', status = Completed, progress = 100, message = ClipsCrees 0,
      clips = [''clip_001.mp4''],
      tasks = [''t1'' \<mapsto> \<lparr>s_status = Completed, s_progress = 100, s_message = ClipsCrees 0,
                           s_clips = [''clip_001.mp4'']\<rparr>],
      files = {''clips_output/t1/clip_001.mp4''},
      writes =
        [\<lparr>s_status = Starting, s_progress = 0, s_message = Initialisation, s_clips = []\<rparr>,
         \<lparr>s_status = Downloading, s_progress = 10, s_message = Telechargement, s_clips = []\<rparr>,
         \<lparr>s_status = Downloaded, s_progress = 30, s_message = Telecharge ''title'', s_clips = []\<rparr>,
         \<lparr>s_status = Processing, s_progress = 40, s_message = Analyse, s_clips = []\<rparr>,
         \<lparr>s_status = Processing, s_progress = 50, s_message = CreationDe 3, s_clips = []\<rparr>,
         \<lparr>s_status = Processing, s_progress = 50, s_message = CreationClip 1 3, s_clips = []\<rparr>,
         \<lparr>s_status = Processing, s_progress = 65, s_message = CreationClip 2 3,
            s_clips = [''clip_001.mp4'']\<rparr>,
         \<lparr>s_status = Error, s_progress = 0, s_message = ErreurDecoupage EncodeError,
            s_clips = [''clip_001.mp4'']\<rparr>,
         \<lparr>s_status = Completed, s_progress = 100, s_message = ClipsCrees 0,
            s_clips = [''clip_001.mp4'']\<rparr>],
      encode_calls = [(0, 65, ''clip_001.mp4''), (65, 130, ''clip_002.mp4'')]\<rparr>"
  by (simp add: process_video_task_def process_video_def process_body_def download_video_def
        cut_video_into_clips_def cut_body_def write_videofile_def update_status_def
        os_remove_def new_task_def starting_snapshot_def fails_on_second_def temp_video_def
        output_dir_def num_clips_def start_time_def end_time_def py_int_def final_def
        clip_names resize_1920_1080 small_fits_float upt_rec Let_def insert_Diff_if)

lemma fails_on_first_run:
  "final (process_video_task fails_on_first ''t1'' ''url'' 65) =
     \<lparr>task_id = ''t1'', status = Completed, progress = 100, message = ClipsCrees 0,
      clips = [],
      tasks = [''t1'' \<mapsto> \<lparr>s_status = Completed, s_progress = 100, s_message = ClipsCrees 0,
                           s_clips = []\<rparr>],
      files = {},
      writes =
        [\<lparr>s_status = Starting, s_progress = 0, s_message = Initialisation, s_clips = []\<rparr>,
         \<lparr>s_status = Downloading, s_progress = 10, s_message = Telechargement, s_clips = []\<rparr>,
         \<lparr>s_status = Downloaded, s_progress = 30, s_message = Telecharge ''title'', s_clips = []\<rparr>,
         \<lparr>s_status = Processing, s_progress = 40, s_message = Analyse, s_clips = []\<rparr>,
         \<lparr>s_status = Processing, s_progress = 50, s_message = CreationDe 1, s_clips = []\<rparr>,
         \<lparr>s_status = Processing, s_progress = 50, s_message = CreationClip 1 1, s_clips = []\<rparr>,
         \<lparr>s_status = Error, s_progress = 0, s_message = ErreurDecoupage EncodeError,
            s_clips = []\<rparr>,
         \<lparr>s_status = Completed, s_progress = 100, s_message = ClipsCrees 0, s_clips = []\<rparr>],
      encode_calls = [(0, 65, ''clip_001.mp4'')]\<rparr>"
  by (simp add: process_video_task_def process_video_def process_body_def download_video_def
        cut_video_into_clips_def cut_body_def write_videofile_def update_status_def
        os_remove_def new_task_def starting_snapshot_def fails_on_first_def temp_video_def
        output_dir_def num_clips_def start_time_def end_time_def py_int_def final_def
        clip_names resize_1920_1080 small_fits_float upt_rec Let_def insert_Diff_if)

lemma download_fails_run:
  "map s_status (writes (final (process_video_task download_fails ''t1'' ''url'' 65))) =
     [Starting, Downloading, Error]"
  by (simp add: process_video_task_def process_video_def process_body_def download_video_def
        update_status_def new_task_def starting_snapshot_def download_fails_def final_def
        Let_def)

lemma plan_195_65: "segment_plan 195 65 = [(0, 65), (65, 130), (130, 195)]"
  by (simp add: segment_plan_kept small_fits_float kept_def num_clips_def start_time_def
        end_time_def upt_rec)

lemma plan_65_65: "segment_plan 65 65 = [(0, 65)]"
  by (simp add: segment_plan_kept small_fits_float kept_def num_clips_def start_time_def
        end_time_def upt_rec)

text \<open>
  Claim C1 at its own input: a video of 195 seconds cut by 65 has a plan of three
  segments, and the encoder raises on the second. The third segment is never encoded
  and \<open>error\<close> is written with the one clip, as the claim says; but the run goes on,
  and the state it leaves in \<open>tasks\<close> is \<open>completed\<close> with progress 100, not \<open>error\<close>.
\<close>

theorem encode_failure_ends_completed:
  "segment_plan 195 65 = [(0, 65), (65, 130), (130, 195)] \<and>
   encode_calls (final (process_video_task fails_on_second ''t1'' ''url'' 65)) =
     [(0, 65, ''clip_001.mp4''), (65, 130, ''clip_002.mp4'')] \<and>
   tasks (final (process_video_task fails_on_second ''t1'' ''url'' 65)) ''t1'' =
     Some \<lparr>s_status = Completed, s_progress = 100, s_message = ClipsCrees 0,
           s_clips = [''clip_001.mp4'']\<rparr>"
  by (simp add: plan_195_65 fails_on_second_run)

text \<open>
  Claim C2 at the same input: the statuses assigned to \<open>tasks[task_id]\<close>, oldest first.
  \<open>completed\<close> is assigned after \<open>error\<close>. When the download fails, \<open>error\<close> is the
  last assignment.
\<close>

theorem error_then_completed:
  "map s_status (writes (final (process_video_task fails_on_second ''t1'' ''url'' 65))) =
     [Starting, Downloading, Downloaded, Processing, Processing, Processing, Processing,
      Error, Completed] \<and>
   map s_status (writes (final (process_video_task download_fails ''t1'' ''url'' 65))) =
     [Starting, Downloading, Error]"
  by (simp add: fails_on_second_run download_fails_run)

text \<open>
  Claim C3 where the encoder raises on the only segment of a video of 65 seconds: the
  plan has one entry of 65 seconds, and the state left in \<open>tasks\<close> is \<open>completed\<close> with
  no clip.
\<close>

theorem completed_without_clips:
  "segment_plan 65 65 = [(0, 65)] \<and>
   tasks (final (process_video_task fails_on_first ''t1'' ''url'' 65)) ''t1'' =
     Some \<lparr>s_status = Completed, s_progress = 100, s_message = ClipsCrees 0, s_clips = []\<rparr>"
  by (simp add: plan_65_65 fails_on_first_run)

text \<open>
  Claim C9 in the same run, which ends in \<open>completed\<close>: the progress values assigned to
  \<open>tasks[task_id]\<close>, oldest first. They fall from 50 to 0 before the last one, 100.
\<close>

theorem progress_falls_in_completed_run:
  "status (final (process_video_task fails_on_first ''t1'' ''url'' 65)) = Completed \<and>
   map s_progress (writes (final (process_video_task fails_on_first ''t1'' ''url'' 65))) =
     [0, 10, 30, 40, 50, 50, 0, 100]"
  by (simp add: fails_on_first_run)


subsection \<open>Runs in which no call raises\<close>

text \<open>
  When the download, the decoding, every encoding and \<open>os.remove\<close> succeed and the clip
  duration is not 0 and fits a float, the run leaves \<open>completed\<close> with one clip per
  entry of the plan, and \<open>completed\<close> is the last status it assigns. The progress
  values are those of \<open>segment_progress\<close>, that is of line 127 read over the reals; read so,
  they never decrease and lie between 0 and 100.
\<close>

lemma cut_loop_writes:
  assumes rz: "resize_to_tiktok_format sz = Inr tr"
    and ok: "\<forall>i\<in>set xs. encode_ok w i"
  shows "\<exists>s'. cut_loop w tot sz cd n xs s = Inr ((), s') \<and>
           task_id s' = task_id s \<and>
           clips s' = clips s @ map clip_name (kept tot cd xs) \<and>
           writes s' = writes s @
             map (\<lambda>k. \<lparr>s_status = Processing,
                        s_progress = segment_progress n (kept tot cd xs ! k),
                        s_message = CreationClip (kept tot cd xs ! k + 1) n,
                        s_clips = clips s @ map clip_name (take k (kept tot cd xs))\<rparr>)
               [0..<length (kept tot cd xs)]"
  using ok
proof (induction xs arbitrary: s)
  case Nil
  show ?case by (simp add: kept_def)
next
  case (Cons i xs)
  have ok': "\<forall>a\<in>set xs. encode_ok w a" using Cons.prems by simp
  show ?case
  proof (cases "end_time tot cd i - start_time cd i < 30")
    case True
    then show ?thesis using Cons.IH [OF ok', of s] by (simp add: kept_def)
  next
    case False
    define s3 where "s3 =
      (update_status Processing (segment_progress n i) (CreationClip (i + 1) n) s)
        \<lparr>encode_calls := encode_calls s @ [(start_time cd i, end_time tot cd i, clip_name i)],
         files := insert (output_dir s @ ''/'' @ clip_name i) (files s),
         clips := clips s @ [clip_name i]\<rparr>"
    have step: "cut_loop w tot sz cd n (i # xs) s = cut_loop w tot sz cd n xs s3"
      using False rz Cons.prems
      by (simp add: Let_def write_videofile_def segment_progress_def s3_def output_dir_def)
    have kp: "kept tot cd (i # xs) = i # kept tot cd xs"
      using False by (simp add: kept_def)
    from Cons.IH [OF ok', of s3] obtain s' where
      r: "cut_loop w tot sz cd n xs s3 = Inr ((), s')"
      and t: "task_id s' = task_id s3"
      and c: "clips s' = clips s3 @ map clip_name (kept tot cd xs)"
      and wr: "writes s' = writes s3 @
             map (\<lambda>k. \<lparr>s_status = Processing,
                        s_progress = segment_progress n (kept tot cd xs ! k),
                        s_message = CreationClip (kept tot cd xs ! k + 1) n,
                        s_clips = clips s3 @ map clip_name (take k (kept tot cd xs))\<rparr>)
               [0..<length (kept tot cd xs)]"
      by blast
    let ?K = "i # kept tot cd xs"
    have wr': "writes s' = writes s @
             map (\<lambda>k. \<lparr>s_status = Processing,
                        s_progress = segment_progress n (?K ! k),
                        s_message = CreationClip (?K ! k + 1) n,
                        s_clips = clips s @ map clip_name (take k ?K)\<rparr>)
               [0..<length ?K]"
      unfolding wr
      by (simp add: s3_def upt_conv_Cons map_Suc_upt [symmetric] del: upt_Suc)
    have t': "task_id s' = task_id s" using t by (simp add: s3_def)
    have c': "clips s' = clips s @ map clip_name ?K"
      using c by (simp add: s3_def)
    show ?thesis
      unfolding step kp
      using r t' c' wr' by blast
  qed
qed

lemma map_over_indices: "map (\<lambda>k. f (xs ! k)) [0..<length xs] = map f xs"
  by (rule nth_equalityI) simp_all

lemma failure_free_run:
  assumes f: "fetch w url = Some (ext, title)"
    and d: "decode w = Some (tot, sz)"
    and h: "snd sz \<noteq> 0"
    and c: "cd \<noteq> 0"
    and o: "\<not> float_overflows cd"
    and e: "\<forall>i. encode_ok w i"
    and r: "remove_ok w"
  shows "\<exists>s'. process_video_task w tid url cd = Inr ((), s') \<and>
           tasks s' tid =
             Some \<lparr>s_status = Completed, s_progress = 100,
                   s_message = ClipsCrees (length (segment_plan tot cd)),
                   s_clips = map clip_name (kept tot cd [0..<nat (num_clips tot cd)])\<rparr> \<and>
           length (kept tot cd [0..<nat (num_clips tot cd)]) = length (segment_plan tot cd) \<and>
           map s_status (writes s') =
             [Starting, Downloading, Downloaded, Processing, Processing] @
             replicate (length (segment_plan tot cd)) Processing @ [Completed] \<and>
           map s_progress (writes s') =
             [0, 10, 30, 40, 50] @
             map (segment_progress (num_clips tot cd)) (kept tot cd [0..<nat (num_clips tot cd)]) @
             [100]"
proof -
  let ?n = "num_clips tot cd"
  let ?K = "kept tot cd [0..<nat ?n]"
  let ?s = "new_task tid"
  from resize_defined [OF h] obtain tr where rz: "resize_to_tiktok_format sz = Inr tr" ..
  define s1 where "s1 = update_status Downloaded 30 (Telecharge title)
      ((update_status Downloading 10 Telechargement ?s)
         \<lparr>files := insert (temp_video ?s ext)
                    (files (update_status Downloading 10 Telechargement ?s))\<rparr>)"
  have dl: "download_video w url ?s = (Some (temp_video ?s ext, title), s1)"
    using f by (simp add: download_video_def Let_def s1_def)
  define sA where "sA = update_status Processing 50 (CreationDe ?n)
                          (update_status Processing 40 Analyse s1)"
  have ok: "\<forall>i\<in>set [0..<nat ?n]. encode_ok w i" using e by simp
  from cut_loop_writes [OF rz ok, of tot cd ?n sA] obtain s2 where
    lp: "cut_loop w tot sz cd ?n [0..<nat ?n] sA = Inr ((), s2)"
    and t2: "task_id s2 = task_id sA"
    and c2: "clips s2 = clips sA @ map clip_name ?K"
    and w2: "writes s2 = writes sA @
             map (\<lambda>k. \<lparr>s_status = Processing,
                        s_progress = segment_progress ?n (?K ! k),
                        s_message = CreationClip (?K ! k + 1) ?n,
                        s_clips = clips sA @ map clip_name (take k ?K)\<rparr>)
               [0..<length ?K]"
    by blast
  have cut: "cut_video_into_clips w cd s1 = (clips s2, s2)"
    using d c o lp by (simp add: cut_video_into_clips_def cut_body_def Let_def sA_def)
  define s3 where "s3 = (if temp_video ?s ext \<in> files s2
                         then s2\<lparr>files := files s2 - {temp_video ?s ext}\<rparr> else s2)"
  define s4 where "s4 = update_status Completed 100 (ClipsCrees (length (clips s2))) s3"
  have run: "process_video_task w tid url cd = Inr ((), s4)"
    using r
    by (simp add: process_video_task_def process_video_def process_body_def dl cut
          temp_video_nonempty os_remove_def s4_def s3_def)
  have tA: "task_id sA = tid" "clips sA = []"
    by (simp_all add: sA_def s1_def new_task_def)
  have wA: "writes sA =
      [starting_snapshot,
       \<lparr>s_status = Downloading, s_progress = 10, s_message = Telechargement, s_clips = []\<rparr>,
       \<lparr>s_status = Downloaded, s_progress = 30, s_message = Telecharge title, s_clips = []\<rparr>,
       \<lparr>s_status = Processing, s_progress = 40, s_message = Analyse, s_clips = []\<rparr>,
       \<lparr>s_status = Processing, s_progress = 50, s_message = CreationDe ?n, s_clips = []\<rparr>]"
    by (simp add: sA_def s1_def new_task_def)
  have p3: "task_id s3 = tid" "clips s3 = clips s2" "writes s3 = writes s2"
    using t2 tA by (simp_all add: s3_def)
  have len: "length ?K = length (segment_plan tot cd)"
    by (simp add: segment_plan_kept [OF c o])
  have g1: "tasks s4 tid =
             Some \<lparr>s_status = Completed, s_progress = 100,
                   s_message = ClipsCrees (length (segment_plan tot cd)),
                   s_clips = map clip_name ?K\<rparr>"
    using p3 by (simp add: s4_def c2 tA len)
  have g2: "map s_status (writes s4) =
             [Starting, Downloading, Downloaded, Processing, Processing] @
             replicate (length (segment_plan tot cd)) Processing @ [Completed]"
    by (simp add: s4_def p3 w2 wA starting_snapshot_def len [symmetric] comp_def
          map_replicate_const)
  have g3: "map s_progress (writes s4) =
             [0, 10, 30, 40, 50] @ map (segment_progress ?n) ?K @ [100]"
    using map_over_indices [of "segment_progress ?n" ?K]
    by (simp add: s4_def p3 w2 wA starting_snapshot_def comp_def)
  from run g1 len g2 g3 show ?thesis by blast
qed

lemma segment_progress_bounds:
  assumes "i < nat n"
  shows "50 \<le> segment_progress n i \<and> segment_progress n i \<le> 95"
proof -
  from assms have n: "0 < real_of_int n" and i: "real i < real_of_int n" by simp_all
  have a: "0 \<le> real i / real_of_int n * 45" using n by simp
  have b: "real i / real_of_int n * 45 < 45"
    using n i by (simp add: field_simps)
  have "\<lfloor>real i / real_of_int n * 45\<rfloor> < 45"
    using b by (simp add: floor_less_iff)
  moreover have "0 \<le> \<lfloor>real i / real_of_int n * 45\<rfloor>"
    using a by simp
  ultimately show ?thesis
    using a by (simp add: segment_progress_def py_int_def)
qed

lemma segment_progress_mono:
  assumes "0 < n" "i \<le> j"
  shows "segment_progress n i \<le> segment_progress n j"
proof -
  have a: "real i / real_of_int n * 45 \<le> real j / real_of_int n * 45"
    using assms by (simp add: divide_right_mono)
  have b: "0 \<le> real i / real_of_int n * 45" "0 \<le> real j / real_of_int n * 45"
    using assms by simp_all
  show ?thesis
    using floor_mono [OF a] b by (simp add: segment_progress_def py_int_def)
qed

lemma sorted_segment_progress:
  "sorted (map (segment_progress n) (kept tot cd [0..<nat n]))"
proof (cases "0 < n")
  case False
  then show ?thesis by (simp add: kept_def)
next
  case True
  have "sorted (kept tot cd [0..<nat n])"
    unfolding kept_def by (rule sorted_wrt_filter) simp
  then have "sorted_wrt (\<lambda>a b. segment_progress n a \<le> segment_progress n b)
               (kept tot cd [0..<nat n])"
    by (rule sorted_wrt_mono_rel [rotated]) (simp add: segment_progress_mono [OF True])
  then show ?thesis by (simp add: sorted_wrt_map)
qed

lemma failure_free_progress:
  "sorted ([0, 10, 30, 40, 50] @
           map (segment_progress n) (kept tot cd [0..<nat n]) @ [100]) \<and>
   (\<forall>p\<in>set ([0, 10, 30, 40, 50] @
           map (segment_progress n) (kept tot cd [0..<nat n]) @ [100]).
      0 \<le> p \<and> p \<le> 100)"
proof -
  have r: "50 \<le> segment_progress n i \<and> segment_progress n i \<le> 95"
    if "i \<in> set (kept tot cd [0..<nat n])" for i
    using that by (intro segment_progress_bounds) (simp add: kept_def)
  show ?thesis
    using sorted_segment_progress [of n tot cd] r
    by (fastforce simp: sorted_append)
qed

end
